theory Spec2Isabelle
  imports Complex_Main
begin

section \<open>The pond Collection: an ordered list of Events with a key index\<close>

text \<open>
  The development follows \<^verbatim>\<open>packages/pond/lib/collection.js\<close>.

  An Event is an object of another module. The Collection only calls its methods, so
  the type \<open>'e\<close> of events is left open and the observations are parameters:
  \<^item> \<open>ks e\<close> stands for \<^verbatim>\<open>e.getKey().toString()\<close>;
  \<^item> \<open>tm e\<close> stands for \<^verbatim>\<open>e.timestamp().getTime()\<close>, in milliseconds;
  \<^item> \<open>fld e\<close> stands for \<^verbatim>\<open>e.get(column)\<close>.
  Equality on \<open>'e\<close> is the equality Immutable.js uses between two events (object identity
  for objects that define no \<^verbatim>\<open>equals\<close>). A method that takes a key takes here the string
  \<^verbatim>\<open>key.toString()\<close>, the only thing the Collection reads of it.
\<close>

subsection \<open>Errors\<close>

text \<open>
  \<open>TypeError\<close> is what JavaScript raises on a property read of \<^verbatim>\<open>undefined\<close>;
  \<open>Error msg\<close> is a \<^verbatim>\<open>throw new Error(msg)\<close> of the source.
\<close>

datatype error = TypeError | Error string

subsection \<open>The Immutable.js operations the Collection calls\<close>

text \<open>
  \<^verbatim>\<open>List.get(index)\<close>: a negative index counts back from the end of the list; an index
  that is out of range after that gives \<^verbatim>\<open>undefined\<close> (\<open>None\<close>), never an exception.
\<close>

definition List_get :: "'a list \<Rightarrow> int \<Rightarrow> 'a option" where
  "List_get xs index =
     (let index' = (if index < 0 then int (length xs) + index else index)
      in if 0 \<le> index' \<and> index' < int (length xs) then Some (xs ! nat index') else None)"

text \<open>
  An \<^verbatim>\<open>Immutable.Set\<close> of positions is modelled by the list of its members, without
  repetition, in the order they were added. (The library iterates a Set in the order of its
  internal trie; results below that list more than one member are to be read up to order.)
\<close>

type_synonym 'a ISet = "'a list"

definition Set_add :: "'a ISet \<Rightarrow> 'a \<Rightarrow> 'a ISet" where
  "Set_add s x = (if x \<in> set s then s else s @ [x])"

definition Set_has :: "'a ISet \<Rightarrow> 'a \<Rightarrow> bool" where
  "Set_has s x = (x \<in> set s)"

text \<open>\<^verbatim>\<open>Set.map(f)\<close> builds a new Set by adding the images one by one.\<close>

definition Set_map :: "('a \<Rightarrow> 'b) \<Rightarrow> 'a ISet \<Rightarrow> 'b ISet" where
  "Set_map f s = foldl (\<lambda>acc x. Set_add acc (f x)) [] s"

text \<open>
  \<^verbatim>\<open>List.filterNot(predicate)\<close> calls the predicate with each value and its position, in
  order, and keeps the values for which it is false. The predicate is JavaScript code and may
  throw; the exception then leaves \<^verbatim>\<open>filterNot\<close>. On an empty list the predicate is
  never called.
\<close>

fun List_filterNot :: "('a \<Rightarrow> nat \<Rightarrow> error + bool) \<Rightarrow> nat \<Rightarrow> 'a list \<Rightarrow> error + 'a list" where
  "List_filterNot p i [] = Inr []"
| "List_filterNot p i (x # xs) =
     (case p x i of
        Inl err \<Rightarrow> Inl err
      | Inr b \<Rightarrow>
          (case List_filterNot p (Suc i) xs of
             Inl err \<Rightarrow> Inl err
           | Inr ys \<Rightarrow> Inr (if b then ys else x # ys)))"

text \<open>
  \<^verbatim>\<open>List.slice(begin, end)\<close>: an absent bound is the start, respectively the end, of the
  list; a negative bound counts from the end; both are clamped to the list.
\<close>

definition resolveIndex :: "int option \<Rightarrow> nat \<Rightarrow> nat \<Rightarrow> nat" where
  "resolveIndex index sz dflt =
     (case index of
        None \<Rightarrow> dflt
      | Some i \<Rightarrow> if i < 0 then nat (max 0 (int sz + i)) else nat (min (int sz) i))"

definition List_slice :: "'a list \<Rightarrow> int option \<Rightarrow> int option \<Rightarrow> 'a list" where
  "List_slice xs b e =
     (let rb = resolveIndex b (length xs) 0;
          re = resolveIndex e (length xs) (length xs)
      in take (re - rb) (drop rb xs))"

definition List_takeLast :: "'a list \<Rightarrow> int \<Rightarrow> 'a list" where
  "List_takeLast xs amount = drop (length xs - nat (max 0 amount)) xs"

definition List_rest :: "'a list \<Rightarrow> 'a list" where
  "List_rest xs = drop 1 xs"

subsection \<open>The Collection object\<close>

text \<open>The two fields \<^verbatim>\<open>_events\<close> and \<^verbatim>\<open>_keyMap\<close>.\<close>

type_synonym KeyMap = "string \<rightharpoonup> nat ISet"

record 'e Collection =
  events :: "'e list"
  keyMap :: KeyMap

text \<open>\<^verbatim>\<open>clone(events, keyMap)\<close>: a new Collection holding the two values.\<close>

definition clone :: "'e list \<Rightarrow> KeyMap \<Rightarrow> 'e Collection" where
  "clone evs km = \<lparr>events = evs, keyMap = km\<rparr>"

text \<open>The hook \<^verbatim>\<open>onEventAdded\<close> of the class Collection hands the list back.\<close>

definition onEventAdded :: "'e list \<Rightarrow> 'e list" where
  "onEventAdded evs = evs"

text \<open>
  \<^verbatim>\<open>buildKeyMap(events)\<close>: one pass over the list, adding each position to the set of
  its key string.
\<close>

fun buildKeyMap_from :: "('e \<Rightarrow> string) \<Rightarrow> nat \<Rightarrow> 'e list \<Rightarrow> KeyMap \<Rightarrow> KeyMap" where
  "buildKeyMap_from ks i [] km = km"
| "buildKeyMap_from ks i (e # es) km =
     (let k = ks e;
          indicies = (case km k of Some s \<Rightarrow> Set_add s i | None \<Rightarrow> [i])
      in buildKeyMap_from ks (Suc i) es (km(k \<mapsto> indicies)))"

definition buildKeyMap :: "('e \<Rightarrow> string) \<Rightarrow> 'e list \<Rightarrow> KeyMap" where
  "buildKeyMap ks evs = buildKeyMap_from ks 0 evs Map.empty"

text \<open>The constructor: without argument, and from an \<^verbatim>\<open>Immutable.List\<close>.\<close>

definition emptyCollection :: "'e Collection" where
  "emptyCollection = \<lparr>events = [], keyMap = Map.empty\<rparr>"

definition newCollection :: "('e \<Rightarrow> string) \<Rightarrow> 'e list \<Rightarrow> 'e Collection" where
  "newCollection ks evs = \<lparr>events = evs, keyMap = buildKeyMap ks evs\<rparr>"

definition sizeC :: "'e Collection \<Rightarrow> nat" where
  "sizeC c = length (events c)"


definition eventList :: "'e Collection \<Rightarrow> 'e list" where
  "eventList c = events c"

definition atC :: "'e Collection \<Rightarrow> int \<Rightarrow> 'e option" where
  "atC c pos = List_get (eventList c) pos"

text \<open>
  \<^verbatim>\<open>atKey(key)\<close>: \<^verbatim>\<open>_keyMap.get(k)\<close> is \<^verbatim>\<open>undefined\<close> for a key that is not in the
  map, and the call of \<^verbatim>\<open>.map\<close> on it raises. A position that is not in the list gives
  an \<^verbatim>\<open>undefined\<close> member (\<open>None\<close>).
\<close>

definition atKey :: "'e Collection \<Rightarrow> string \<Rightarrow> error + 'e option list" where
  "atKey c k =
     (case keyMap c k of
        None \<Rightarrow> Inl TypeError
      | Some indexes \<Rightarrow> Inr (Set_map (\<lambda>i. List_get (events c) (int i)) indexes))"

text \<open>
  The \<^verbatim>\<open>dedup\<close> argument of \<^verbatim>\<open>addEvent\<close>: absent (or false), \<^verbatim>\<open>true\<close>, or a function
  from the list of the conflicting events and the new one to the event that replaces them.
\<close>

datatype 'e dedup = NoDedup | Replace | Merge "'e option list \<Rightarrow> 'e"

text \<open>The condition \<^verbatim>\<open>if (dedup)\<close>.\<close>

fun dedup_given :: "'e dedup \<Rightarrow> bool" where
  "dedup_given NoDedup = False"
| "dedup_given Replace = True"
| "dedup_given (Merge f) = True"

definition addEvent :: "('e \<Rightarrow> string) \<Rightarrow> 'e Collection \<Rightarrow> 'e \<Rightarrow> 'e dedup \<Rightarrow> error + 'e Collection" where
  "addEvent ks c event dd =
     (let k = ks event;
          indicies0 = (case keyMap c k of Some s \<Rightarrow> s | None \<Rightarrow> []);
          deduped =
            (if dedup_given dd then
               (case atKey c (ks event) of
                  Inl err \<Rightarrow> Inl err
                | Inr conflicts \<Rightarrow>
                    if length conflicts > 0 then
                      Inr (filter (\<lambda>duplicate. \<not> (ks duplicate = ks event)) (events c),
                           (case dd of Merge f \<Rightarrow> f (conflicts @ [Some event]) | _ \<Rightarrow> event),
                           [])
                    else Inr (events c, event, indicies0))
             else Inr (events c, event, indicies0))
      in case deduped of
           Inl err \<Rightarrow> Inl err
         | Inr (evs0, e, indicies) \<Rightarrow>
             (let evs = evs0 @ [e];
                  newEvents = onEventAdded evs
              in if newEvents = evs
                 then Inr (clone newEvents
                             ((keyMap c)(k \<mapsto> Set_add indicies (length newEvents - 1))))
                 else Inr (clone newEvents (buildKeyMap ks newEvents))))"

text \<open>
  \<^verbatim>\<open>removeEvents(key)\<close>: \<^verbatim>\<open>indices\<close> is \<^verbatim>\<open>undefined\<close> for a key that is not in the
  map, and the predicate's \<^verbatim>\<open>indices.has(i)\<close> then raises at the first event.
\<close>

definition removeEvents :: "'e Collection \<Rightarrow> string \<Rightarrow> error + 'e Collection" where
  "removeEvents c k =
     (let indices = keyMap c k
      in case List_filterNot
                (\<lambda>event i. case indices of None \<Rightarrow> Inl TypeError | Some s \<Rightarrow> Inr (Set_has s i))
                0 (events c) of
           Inl err \<Rightarrow> Inl err
         | Inr evs \<Rightarrow> Inr (clone evs ((keyMap c)(k := None))))"

subsection \<open>The index invariant\<close>

text \<open>
  The key index agrees with the sequence: every position of the sequence is in the set of
  its event's key string, and a set holds only positions of the sequence whose event has
  that key string.
\<close>

definition index_consistent :: "('e \<Rightarrow> string) \<Rightarrow> 'e Collection \<Rightarrow> bool" where
  "index_consistent ks c \<longleftrightarrow>
     list_all
       (\<lambda>i. case keyMap c (ks (events c ! i)) of None \<Rightarrow> False | Some s \<Rightarrow> i \<in> set s)
       [0 ..< length (events c)] \<and>
     (\<forall>k. case keyMap c k of
            None \<Rightarrow> True
          | Some s \<Rightarrow> list_all (\<lambda>i. i < length (events c) \<and> ks (events c ! i) = k) s)"

text \<open>The positions the key map holds for a key string.\<close>

definition indexed :: "KeyMap \<Rightarrow> string \<Rightarrow> nat set" where
  "indexed km k = (case km k of None \<Rightarrow> {} | Some s \<Rightarrow> set s)"

subsection \<open>Structural transforms\<close>

text \<open>
  \<^verbatim>\<open>setEvents(events)\<close> builds the key map with the loop of \<^verbatim>\<open>buildKeyMap\<close>, written
  out once more in the source.
\<close>

definition setEvents :: "('e \<Rightarrow> string) \<Rightarrow> 'e Collection \<Rightarrow> 'e list \<Rightarrow> 'e Collection" where
  "setEvents ks c evs = clone evs (buildKeyMap_from ks 0 evs Map.empty)"

definition takeLast :: "('e \<Rightarrow> string) \<Rightarrow> 'e Collection \<Rightarrow> int \<Rightarrow> 'e Collection" where
  "takeLast ks c amount =
     (let evs = List_takeLast (events c) amount;
          km = buildKeyMap ks evs
      in clone evs km)"

definition slice :: "('e \<Rightarrow> string) \<Rightarrow> 'e Collection \<Rightarrow> int option \<Rightarrow> int option \<Rightarrow> 'e Collection" where
  "slice ks c b e = setEvents ks c (List_slice (events c) b e)"

definition rest :: "('e \<Rightarrow> string) \<Rightarrow> 'e Collection \<Rightarrow> 'e Collection" where
  "rest ks c = setEvents ks c (List_rest (events c))"

text \<open>
  A mapper is JavaScript code: it may keep state between its calls, as the closure over a
  stream processor does. \<open>mapper st e\<close> gives the result for \<open>e\<close> and the next state;
  \<^verbatim>\<open>List.map\<close> calls it once for each event, in order.
\<close>

fun List_map :: "('s \<Rightarrow> 'a \<Rightarrow> 'b \<times> 's) \<Rightarrow> 's \<Rightarrow> 'a list \<Rightarrow> 'b list" where
  "List_map mapper st [] = []"
| "List_map mapper st (x # xs) =
     (case mapper st x of (y, st') \<Rightarrow> y # List_map mapper st' xs)"

definition List_flatMap :: "('s \<Rightarrow> 'a \<Rightarrow> 'b list \<times> 's) \<Rightarrow> 's \<Rightarrow> 'a list \<Rightarrow> 'b list" where
  "List_flatMap mapper st xs = concat (List_map mapper st xs)"

text \<open>
  What a mapper hands back is any JavaScript value: an Event, or a value that is not one
  (a list of Events, \<^verbatim>\<open>undefined\<close>, ...). Nothing checks it before it goes into the new
  list.
\<close>

datatype ('e, 'x) mapped = Event 'e | NotEvent 'x

text \<open>
  The constructor on the list of such values, \<^verbatim>\<open>new Collection(Immutable.List(remapped))\<close>:
  the loop of \<^verbatim>\<open>buildKeyMap\<close> calls \<^verbatim>\<open>e.getKey()\<close> on each value in order, and a value
  that is not an Event has no such method, so the call raises. When the loop ends, every
  value is an Event and the Collection holds them.
\<close>

fun buildKeyMap_mapped ::
  "('e \<Rightarrow> string) \<Rightarrow> nat \<Rightarrow> ('e, 'x) mapped list \<Rightarrow> KeyMap \<Rightarrow> error + KeyMap" where
  "buildKeyMap_mapped ks i [] km = Inr km"
| "buildKeyMap_mapped ks i (Event e # vs) km =
     (let k = ks e;
          indicies = (case km k of Some s \<Rightarrow> Set_add s i | None \<Rightarrow> [i])
      in buildKeyMap_mapped ks (Suc i) vs (km(k \<mapsto> indicies)))"
| "buildKeyMap_mapped ks i (NotEvent x # vs) km = Inl TypeError"

fun events_of :: "('e, 'x) mapped list \<Rightarrow> 'e list" where
  "events_of [] = []"
| "events_of (Event e # vs) = e # events_of vs"
| "events_of (NotEvent x # vs) = events_of vs"

definition newCollection_mapped ::
  "('e \<Rightarrow> string) \<Rightarrow> ('e, 'x) mapped list \<Rightarrow> error + 'e Collection" where
  "newCollection_mapped ks vs =
     (case buildKeyMap_mapped ks 0 vs Map.empty of
        Inl err \<Rightarrow> Inl err
      | Inr km \<Rightarrow> Inr \<lparr>events = events_of vs, keyMap = km\<rparr>)"

definition mapC ::
  "('f \<Rightarrow> string) \<Rightarrow> ('s \<Rightarrow> 'e \<Rightarrow> ('f, 'x) mapped \<times> 's) \<Rightarrow> 's \<Rightarrow> 'e Collection
     \<Rightarrow> error + 'f Collection" where
  "mapC ks mapper st c =
     (let remapped = List_map mapper st (events c)
      in newCollection_mapped ks remapped)"

definition flatMap ::
  "('f \<Rightarrow> string) \<Rightarrow> ('s \<Rightarrow> 'e \<Rightarrow> ('f, 'x) mapped list \<times> 's) \<Rightarrow> 's \<Rightarrow> 'e Collection
     \<Rightarrow> error + 'f Collection" where
  "flatMap ks mapper st c =
     (let remapped = List_flatMap mapper st (events c)
      in newCollection_mapped ks remapped)"

text \<open>
  \<^verbatim>\<open>mapKeys(mapper)\<close>: \<open>rekey event\<close> stands for
  \<^verbatim>\<open>new Event(mapper(event.getKey()), event.getData())\<close>.
\<close>

definition mapKeys :: "('f \<Rightarrow> string) \<Rightarrow> ('e \<Rightarrow> 'f) \<Rightarrow> 'e Collection \<Rightarrow> 'f Collection" where
  "mapKeys ks rekey c =
     (let list = map rekey (events c)
      in newCollection ks list)"

text \<open>
  \<^verbatim>\<open>sortBy\<close> is a stable sort, ascending in the value the function gives for each event.
\<close>

definition sortByKey :: "('e \<Rightarrow> string) \<Rightarrow> ('e \<Rightarrow> int) \<Rightarrow> 'e Collection \<Rightarrow> 'e Collection" where
  "sortByKey ks tm c =
     (let sorted = sort_key tm (events c)
      in newCollection ks sorted)"

definition sortC :: "('e \<Rightarrow> string) \<Rightarrow> ('e \<Rightarrow> 'v::linorder) \<Rightarrow> 'e Collection \<Rightarrow> 'e Collection" where
  "sortC ks fld c =
     (let sorted = sort_key fld (events c)
      in newCollection ks sorted)"

text \<open>
  \<^verbatim>\<open>collapse(options)\<close>: a new Collapse processor \<open>p\<close> is made from the options, and every
  event goes through \<^verbatim>\<open>p.addEvent\<close> by \<^verbatim>\<open>map\<close>. The processor is code of another module:
  \<open>newCollapse options\<close> is its first state and \<open>p_addEvent\<close> one call, whose result is
  whatever the processor returns.
\<close>

definition collapse ::
  "('f \<Rightarrow> string) \<Rightarrow> ('o \<Rightarrow> 's) \<Rightarrow> ('s \<Rightarrow> 'e \<Rightarrow> ('f, 'x) mapped \<times> 's) \<Rightarrow> 'o \<Rightarrow> 'e Collection
     \<Rightarrow> error + 'f Collection" where
  "collapse ks newCollapse p_addEvent options c =
     (let p = newCollapse options
      in mapC ks (\<lambda>st e. p_addEvent st e) p c)"

subsection \<open>Chronological order\<close>

text \<open>
  The variable \<^verbatim>\<open>t\<close> of \<^verbatim>\<open>isChronological\<close> is first \<^verbatim>\<open>undefined\<close>, then the number
  \<^verbatim>\<open>getTime()\<close> of an event, then the Date \<^verbatim>\<open>timestamp()\<close> of an event. The test
  \<^verbatim>\<open>!t\<close> holds for \<^verbatim>\<open>undefined\<close> and for the number 0; a Date object is never falsy.
  A Date compares by its time value. Times are milliseconds since the epoch, negative
  before 1970.
\<close>

datatype tvar = Undefined | Number int | DateObj int

fun falsy :: "tvar \<Rightarrow> bool" where
  "falsy Undefined = True"
| "falsy (Number n) = (n = 0)"
| "falsy (DateObj d) = False"

fun valueOf :: "tvar \<Rightarrow> int" where
  "valueOf Undefined = 0"
| "valueOf (Number n) = n"
| "valueOf (DateObj d) = d"

definition chron_step :: "('e \<Rightarrow> int) \<Rightarrow> bool \<times> tvar \<Rightarrow> 'e \<Rightarrow> bool \<times> tvar" where
  "chron_step tm st e =
     (case st of (result, t) \<Rightarrow>
        if falsy t then (result, Number (tm e))
        else ((if tm e < valueOf t then False else result), DateObj (tm e)))"

definition isChronological :: "('e \<Rightarrow> int) \<Rightarrow> 'e Collection \<Rightarrow> bool" where
  "isChronological tm c = fst (foldl (chron_step tm) (True, Undefined) (events c))"

text \<open>
  The property the method is documented to decide: no event's time is strictly less than
  the time of the event before it.
\<close>

fun chronological :: "int list \<Rightarrow> bool" where
  "chronological [] = True"
| "chronological [t] = True"
| "chronological (t # u # ts) = (\<not> u < t \<and> chronological (u # ts))"

subsection \<open>Quantiles\<close>

text \<open>
  The enumeration \<^verbatim>\<open>InterpolationType\<close> belongs to another module. The source reads its
  constants only as conditions, so \<open>tv m\<close>, the truth value of the constant \<open>m\<close> as a
  JavaScript condition, is a parameter.
\<close>

datatype InterpolationType = Linear | Lower | Higher | Nearest | Midpoint

text \<open>
  JavaScript numbers are modelled by exact rationals; the model agrees with the source where
  the doubles are exact (halves, quarters, small integers). \<open>n\<close> is a count. For \<open>n = 0\<close>
  the source's \<^verbatim>\<open>subsets\<close> is \<^verbatim>\<open>Infinity\<close> and the loop condition \<^verbatim>\<open>i < 1\<close> fails at
  once; the loop below tests \<open>n \<noteq> 0\<close> for that. A value is \<open>None\<close> when no branch assigns
  \<^verbatim>\<open>v\<close>. The loop pushes to \<^verbatim>\<open>results\<close>; the function returns what is pushed from \<open>i\<close> on.
\<close>

function quantile_loop ::
  "(InterpolationType \<Rightarrow> bool) \<Rightarrow> nat \<Rightarrow> ('e \<Rightarrow> rat) \<Rightarrow> 'e Collection \<Rightarrow> rat
     \<Rightarrow> error + rat option list" where
  "quantile_loop tv n fld sorted_c i =
     (if n \<noteq> 0 \<and> i < 1 then
        (let index = \<lfloor>(of_nat (sizeC sorted_c) - 1) * i\<rfloor>
         in if index < int (sizeC sorted_c) - 1 then
              (let fraction = (of_nat (sizeC sorted_c) - 1) * i - of_int index
               in case atC sorted_c index of
                    None \<Rightarrow> Inl TypeError
                  | Some e0 \<Rightarrow>
                      (case atC sorted_c (index + 1) of
                         None \<Rightarrow> Inl TypeError
                       | Some e1 \<Rightarrow>
                           (let v0 = fld e0;
                                v1 = fld e1;
                                v = (if tv Lower \<or> fraction = 0 then Some v0
                                     else if tv Linear then Some (v0 + (v1 - v0) * fraction)
                                     else if tv Higher then Some v1
                                     else if tv Nearest then Some (if fraction < 1 / 2 then v0 else v1)
                                     else if tv Midpoint then Some ((v0 + v1) / 2)
                                     else None)
                            in case quantile_loop tv n fld sorted_c (i + 1 / of_nat n) of
                                 Inl err \<Rightarrow> Inl err
                               | Inr results \<Rightarrow> Inr (v # results))))
            else quantile_loop tv n fld sorted_c (i + 1 / of_nat n))
      else Inr [])"
  by pat_completeness auto
termination
proof (relation "measure (\<lambda>(tv, n, fld, sorted_c, i). nat \<lceil>(1 - i) * of_nat n\<rceil>)")
  show "wf (measure (\<lambda>(tv :: InterpolationType \<Rightarrow> bool, n :: nat, fld :: 'e \<Rightarrow> rat,
                        sorted_c :: 'e Collection, i :: rat). nat \<lceil>(1 - i) * of_nat n\<rceil>))"
    by simp
next
  fix n :: nat and i :: rat
  assume h: "n \<noteq> 0 \<and> i < 1"
  then have pos: "0 < (1 - i) * of_nat n"
    by simp
  have "(1 - (i + 1 / of_nat n)) * of_nat n = (1 - i) * of_nat n - 1"
    using h by (simp add: algebra_simps)
  then have "\<lceil>(1 - (i + 1 / of_nat n)) * of_nat n\<rceil> = \<lceil>(1 - i) * of_nat n\<rceil> - 1"
    by simp
  moreover have "0 < \<lceil>(1 - i) * of_nat n\<rceil>"
    using pos by simp
  ultimately have "nat \<lceil>(1 - (i + 1 / of_nat n)) * of_nat n\<rceil> < nat \<lceil>(1 - i) * of_nat n\<rceil>"
    by simp
  then show "\<And>tv fld sorted_c x xa y ya.
       ((tv :: InterpolationType \<Rightarrow> bool, n, fld :: 'e \<Rightarrow> rat, sorted_c :: 'e Collection,
         i + 1 / of_nat n), (tv, n, fld, sorted_c, i))
       \<in> measure (\<lambda>(tv, n, fld, sorted_c, i). nat \<lceil>(1 - i) * of_nat n\<rceil>)"
    by simp
  then show "\<And>tv fld sorted_c.
       ((tv :: InterpolationType \<Rightarrow> bool, n, fld :: 'e \<Rightarrow> rat, sorted_c :: 'e Collection,
         i + 1 / of_nat n), (tv, n, fld, sorted_c, i))
       \<in> measure (\<lambda>(tv, n, fld, sorted_c, i). nat \<lceil>(1 - i) * of_nat n\<rceil>)"
    by simp
qed

declare quantile_loop.simps [simp del]

text \<open>
  \<^verbatim>\<open>quantile(n, column, interp)\<close>: the Collection is sorted first, then \<open>n\<close> is checked
  against the size, then the loop runs from \<^verbatim>\<open>i = subsets\<close>. The argument \<open>interp\<close> is
  not read by the body.
\<close>

definition quantile ::
  "(InterpolationType \<Rightarrow> bool) \<Rightarrow> ('e \<Rightarrow> string) \<Rightarrow> nat \<Rightarrow> ('e \<Rightarrow> rat) \<Rightarrow> InterpolationType
     \<Rightarrow> 'e Collection \<Rightarrow> error + rat option list" where
  "quantile tv ks n fld interp c =
     (let sorted = sortC ks fld c;
          subsets = 1 / of_nat n
      in if n > sizeC c then Inl (Error ''Subset n is greater than the Collection length'')
         else quantile_loop tv n fld sorted subsets)"

subsection \<open>Collections as objects\<close>

text \<open>
  The values of the two fields are persistent Immutable.js values; the Collection that holds
  them is a JavaScript object with assignable fields. For the question whether a method
  changes the Collection it is called on, the objects are kept in a store: the list of the
  Collections allocated so far, a reference being a position in it. A method takes the
  store and the reference \<open>this\<close>, and gives the store it leaves and its result: a reference,
  or the exception. Reading a field of \<^verbatim>\<open>this\<close> is \<open>events (s ! this)\<close> or
  \<open>keyMap (s ! this)\<close>; an assignment to a field is \<open>set_events\<close> or \<open>set_keyMap\<close>.
\<close>

type_synonym 'e store = "'e Collection list"

text \<open>A new object, before the constructor assigns its fields (they read as empty here).\<close>

definition allocate :: "'e store \<Rightarrow> 'e store \<times> nat" where
  "allocate s = (s @ [\<lparr>events = [], keyMap = Map.empty\<rparr>], length s)"

text \<open>The assignments \<^verbatim>\<open>c._events = events\<close> and \<^verbatim>\<open>c._keyMap = keyMap\<close>.\<close>

definition set_events :: "'e store \<Rightarrow> nat \<Rightarrow> 'e list \<Rightarrow> 'e store" where
  "set_events s r evs = s[r := (s ! r)\<lparr>events := evs\<rparr>]"

definition set_keyMap :: "'e store \<Rightarrow> nat \<Rightarrow> KeyMap \<Rightarrow> 'e store" where
  "set_keyMap s r km = s[r := (s ! r)\<lparr>keyMap := km\<rparr>]"

text \<open>
  \<^verbatim>\<open>new Collection()\<close>: the constructor assigns an empty list and an empty map to the new
  object.
\<close>

definition new_object :: "'e store \<Rightarrow> 'e store \<times> nat" where
  "new_object s =
     (case allocate s of
        (s1, c) \<Rightarrow>
          (let s2 = set_events s1 c [];
               s3 = set_keyMap s2 c Map.empty
           in (s3, c)))"

text \<open>
  \<^verbatim>\<open>clone(events, keyMap)\<close> as the source writes it: \<^verbatim>\<open>new Collection()\<close>, then the two
  assignments to the new object.
\<close>

definition clone_object :: "'e store \<Rightarrow> 'e list \<Rightarrow> KeyMap \<Rightarrow> 'e store \<times> nat" where
  "clone_object s evs km =
     (case new_object s of
        (s1, c) \<Rightarrow>
          (let s2 = set_events s1 c evs;
               s3 = set_keyMap s2 c km
           in (s3, c)))"

text \<open>
  \<^verbatim>\<open>new Collection(list)\<close>: the constructor assigns the list, then the key map that
  \<^verbatim>\<open>buildKeyMap\<close> gives for it.
\<close>

definition construct_object :: "('e \<Rightarrow> string) \<Rightarrow> 'e store \<Rightarrow> 'e list \<Rightarrow> 'e store \<times> nat" where
  "construct_object ks s arg1 =
     (case allocate s of
        (s1, c) \<Rightarrow>
          (let s2 = set_events s1 c arg1;
               s3 = set_keyMap s2 c (buildKeyMap ks arg1)
           in (s3, c)))"

text \<open>
  The same constructor on the values of a mapper. When \<^verbatim>\<open>buildKeyMap\<close> raises, the
  constructor does not return: the new object stays in the store and no reference reaches
  it. Its list then holds a value that is not an Event, which a Collection of this model
  cannot hold; the model keeps the Events of the list in it.
\<close>

definition construct_object_mapped ::
  "('e \<Rightarrow> string) \<Rightarrow> 'e store \<Rightarrow> ('e, 'x) mapped list \<Rightarrow> 'e store \<times> (error + nat)" where
  "construct_object_mapped ks s arg1 =
     (case allocate s of
        (s1, c) \<Rightarrow>
          (let s2 = set_events s1 c (events_of arg1)
           in case buildKeyMap_mapped ks 0 arg1 Map.empty of
                Inl err \<Rightarrow> (s2, Inl err)
              | Inr km \<Rightarrow> (set_keyMap s2 c km, Inr c)))"

text \<open>A method that returns the reference it has from \<^verbatim>\<open>clone\<close> or the constructor.\<close>

definition returned :: "'e store \<times> nat \<Rightarrow> 'e store \<times> (error + nat)" where
  "returned r = (fst r, Inr (snd r))"

text \<open>The methods, written from the source with the object \<^verbatim>\<open>this\<close> in the store.\<close>

definition atKey_obj :: "'e store \<Rightarrow> nat \<Rightarrow> string \<Rightarrow> error + 'e option list" where
  "atKey_obj s this k =
     (case keyMap (s ! this) k of
        None \<Rightarrow> Inl TypeError
      | Some indexes \<Rightarrow> Inr (Set_map (\<lambda>i. List_get (events (s ! this)) (int i)) indexes))"

definition addEvent_obj ::
  "('e \<Rightarrow> string) \<Rightarrow> 'e store \<Rightarrow> nat \<Rightarrow> 'e \<Rightarrow> 'e dedup \<Rightarrow> 'e store \<times> (error + nat)" where
  "addEvent_obj ks s this event dd =
     (let k = ks event;
          indicies0 = (case keyMap (s ! this) k of Some x \<Rightarrow> x | None \<Rightarrow> []);
          deduped =
            (if dedup_given dd then
               (case atKey_obj s this (ks event) of
                  Inl err \<Rightarrow> Inl err
                | Inr conflicts \<Rightarrow>
                    if length conflicts > 0 then
                      Inr (filter (\<lambda>duplicate. \<not> (ks duplicate = ks event)) (events (s ! this)),
                           (case dd of Merge f \<Rightarrow> f (conflicts @ [Some event]) | _ \<Rightarrow> event),
                           [])
                    else Inr (events (s ! this), event, indicies0))
             else Inr (events (s ! this), event, indicies0))
      in case deduped of
           Inl err \<Rightarrow> (s, Inl err)
         | Inr (evs0, e, indicies) \<Rightarrow>
             (let evs = evs0 @ [e];
                  newEvents = onEventAdded evs
              in if newEvents = evs
                 then returned (clone_object s newEvents
                        ((keyMap (s ! this))(k \<mapsto> Set_add indicies (length newEvents - 1))))
                 else returned (clone_object s newEvents (buildKeyMap ks newEvents))))"

definition removeEvents_obj :: "'e store \<Rightarrow> nat \<Rightarrow> string \<Rightarrow> 'e store \<times> (error + nat)" where
  "removeEvents_obj s this k =
     (let indices = keyMap (s ! this) k
      in case List_filterNot
                (\<lambda>event i. case indices of None \<Rightarrow> Inl TypeError | Some x \<Rightarrow> Inr (Set_has x i))
                0 (events (s ! this)) of
           Inl err \<Rightarrow> (s, Inl err)
         | Inr evs \<Rightarrow> returned (clone_object s evs ((keyMap (s ! this))(k := None))))"

definition takeLast_obj ::
  "('e \<Rightarrow> string) \<Rightarrow> 'e store \<Rightarrow> nat \<Rightarrow> int \<Rightarrow> 'e store \<times> (error + nat)" where
  "takeLast_obj ks s this amount =
     (let evs = List_takeLast (events (s ! this)) amount;
          km = buildKeyMap ks evs
      in returned (clone_object s evs km))"

definition setEvents_obj ::
  "('e \<Rightarrow> string) \<Rightarrow> 'e store \<Rightarrow> nat \<Rightarrow> 'e list \<Rightarrow> 'e store \<times> (error + nat)" where
  "setEvents_obj ks s this evs =
     returned (clone_object s evs (buildKeyMap_from ks 0 evs Map.empty))"

definition slice_obj ::
  "('e \<Rightarrow> string) \<Rightarrow> 'e store \<Rightarrow> nat \<Rightarrow> int option \<Rightarrow> int option \<Rightarrow> 'e store \<times> (error + nat)" where
  "slice_obj ks s this b e = setEvents_obj ks s this (List_slice (events (s ! this)) b e)"

definition rest_obj :: "('e \<Rightarrow> string) \<Rightarrow> 'e store \<Rightarrow> nat \<Rightarrow> 'e store \<times> (error + nat)" where
  "rest_obj ks s this = setEvents_obj ks s this (List_rest (events (s ! this)))"

definition map_obj ::
  "('e \<Rightarrow> string) \<Rightarrow> 'e store \<Rightarrow> nat \<Rightarrow> ('s \<Rightarrow> 'e \<Rightarrow> ('e, 'x) mapped \<times> 's) \<Rightarrow> 's
     \<Rightarrow> 'e store \<times> (error + nat)" where
  "map_obj ks s this mapper st =
     (let remapped = List_map mapper st (events (s ! this))
      in construct_object_mapped ks s remapped)"

definition flatMap_obj ::
  "('e \<Rightarrow> string) \<Rightarrow> 'e store \<Rightarrow> nat \<Rightarrow> ('s \<Rightarrow> 'e \<Rightarrow> ('e, 'x) mapped list \<times> 's) \<Rightarrow> 's
     \<Rightarrow> 'e store \<times> (error + nat)" where
  "flatMap_obj ks s this mapper st =
     (let remapped = List_flatMap mapper st (events (s ! this))
      in construct_object_mapped ks s remapped)"

definition mapKeys_obj ::
  "('e \<Rightarrow> string) \<Rightarrow> 'e store \<Rightarrow> nat \<Rightarrow> ('e \<Rightarrow> 'e) \<Rightarrow> 'e store \<times> (error + nat)" where
  "mapKeys_obj ks s this rekey =
     (let list = map rekey (events (s ! this))
      in returned (construct_object ks s list))"

definition sortByKey_obj ::
  "('e \<Rightarrow> string) \<Rightarrow> ('e \<Rightarrow> int) \<Rightarrow> 'e store \<Rightarrow> nat \<Rightarrow> 'e store \<times> (error + nat)" where
  "sortByKey_obj ks tm s this =
     (let sorted = sort_key tm (events (s ! this))
      in returned (construct_object ks s sorted))"

definition sort_obj ::
  "('e \<Rightarrow> string) \<Rightarrow> 'e store \<Rightarrow> nat \<Rightarrow> ('e \<Rightarrow> 'v::linorder) \<Rightarrow> 'e store \<times> (error + nat)" where
  "sort_obj ks s this fld =
     (let sorted = sort_key fld (events (s ! this))
      in returned (construct_object ks s sorted))"



text \<open>
  What a call may do to the store: the objects that were there are what they were, and a
  reference it returns is to an object that was not there.
\<close>

definition only_allocates :: "'e store \<Rightarrow> 'e store \<times> (error + nat) \<Rightarrow> bool" where
  "only_allocates s r \<longleftrightarrow>
     take (length s) (fst r) = s \<and>
     (case snd r of Inl err \<Rightarrow> True | Inr c \<Rightarrow> length s \<le> c \<and> c < length (fst r))"

subsection \<open>A resolver for the examples\<close>


section \<open>Positional access\<close>

lemma List_get_in_range:
  "0 \<le> p \<Longrightarrow> p < int (length xs) \<Longrightarrow> List_get xs p = Some (xs ! nat p)"
  by (simp add: List_get_def)

lemma List_get_from_end:
  "- int (length xs) \<le> q \<Longrightarrow> q < 0 \<Longrightarrow> List_get xs q = Some (xs ! nat (int (length xs) + q))"
  by (simp add: List_get_def Let_def)

lemma List_get_outside:
  "int (length xs) \<le> r \<or> r < - int (length xs) \<Longrightarrow> List_get xs r = None"
  by (auto simp add: List_get_def Let_def)

text \<open>
  Claim C10, as stated: for every position outside \<open>[0, size - 1]\<close>, negative or past the
  end, \<open>at\<close> gives the absence. It fails at position \<open>-1\<close> of a Collection of two events:
  the last event comes back.
\<close>

theorem at_negative_counterexample:
  "atC (newCollection (\<lambda>e. e) [''a'', ''b'']) (- 1) = Some ''b''"
  by (simp add: atC_def eventList_def newCollection_def List_get_def)

text \<open>
  Claim C10, amended: \<open>at\<close> never raises (its result is an event or the absence), and for
  every Collection, the empty one included, and every position \<open>pos\<close>: when \<open>pos\<close> is in
  \<open>[0, size - 1]\<close> the result is the event at \<open>pos\<close>; when \<open>pos\<close> is in \<open>[-size, -1]\<close> it is the
  event at \<open>size + pos\<close>, counted back from the end; when \<open>pos\<close> is past the end or below
  \<open>-size\<close> it is the absence.
\<close>

theorem at_total:
  "(0 \<le> pos \<and> pos < int (sizeC c) \<longrightarrow> atC c pos = Some (events c ! nat pos))
 \<and> (- int (sizeC c) \<le> pos \<and> pos < 0 \<longrightarrow> atC c pos = Some (events c ! nat (int (sizeC c) + pos)))
 \<and> (int (sizeC c) \<le> pos \<or> pos < - int (sizeC c) \<longrightarrow> atC c pos = None)"
  by (simp add: atC_def eventList_def sizeC_def List_get_in_range List_get_from_end List_get_outside)

theorem at_total_witness:
  "atC (newCollection (\<lambda>e. e) [''a'', ''b'']) 1 = Some ''b''
 \<and> atC (newCollection (\<lambda>e. e) [''a'', ''b'']) (- 2) = Some ''a''
 \<and> atC (newCollection (\<lambda>e. e) [''a'', ''b'']) 7 = None
 \<and> atC (newCollection (\<lambda>e. e) [''a'', ''b'']) (- 3) = None
 \<and> atC (emptyCollection :: string Collection) 0 = None
 \<and> atC (emptyCollection :: string Collection) (- 1) = None"
  using at_total [of 1 "newCollection (\<lambda>e. e) [''a'', ''b'']"]
    at_total [of "- 2" "newCollection (\<lambda>e. e) [''a'', ''b'']"]
    at_total [of 7 "newCollection (\<lambda>e. e) [''a'', ''b'']"]
    at_total [of "- 3" "newCollection (\<lambda>e. e) [''a'', ''b'']"]
    at_total [of 0 "emptyCollection :: string Collection"]
    at_total [of "- 1" "emptyCollection :: string Collection"]
  by (simp add: sizeC_def newCollection_def emptyCollection_def)

text \<open>On the empty Collection every position gives the absence.\<close>

lemma at_empty: "atC emptyCollection pos = None"
  by (simp add: atC_def eventList_def emptyCollection_def List_get_def Let_def)

section \<open>Lookup and removal by a key that is not indexed\<close>

text \<open>A key string that is not in the key map makes \<open>atKey\<close> raise, whatever the Collection.\<close>

lemma atKey_absent: "keyMap c k = None \<Longrightarrow> atKey c k = Inl TypeError"
  by (simp add: atKey_def)

text \<open>
  Claim C7 says that \<open>atKey\<close> on a key that is not indexed gives an empty list and no error.
  The code raises a TypeError there: on a Collection built from one event with key \<open>a\<close>
  asked for key \<open>b\<close>, and on the empty Collection.
\<close>

theorem atKey_absent_key_raises:
  "keyMap (newCollection fst [(''a'', 1::int)]) ''b'' = None
 \<and> atKey (newCollection fst [(''a'', 1::int)]) ''b'' = Inl TypeError
 \<and> keyMap (emptyCollection :: (string \<times> int) Collection) ''b'' = None
 \<and> atKey (emptyCollection :: (string \<times> int) Collection) ''b'' = Inl TypeError"
  by (simp add: atKey_def newCollection_def buildKeyMap_def emptyCollection_def)

text \<open>
  With a key that is not indexed, \<open>removeEvents\<close> returns only when there is no event at
  all; with one event or more, the predicate raises.
\<close>

lemma removeEvents_absent:
  "keyMap c k = None \<Longrightarrow>
     removeEvents c k = (if events c = [] then Inr (clone [] (keyMap c)) else Inl TypeError)"
  by (cases "events c") (simp_all add: removeEvents_def fun_upd_idem)

text \<open>
  Claim C8 says that \<open>removeEvents\<close> on a key that is not indexed succeeds and keeps the
  sequence. The code raises a TypeError on a Collection built from one event with key \<open>a\<close>
  when key \<open>b\<close> is removed.
\<close>

theorem removeEvents_absent_key_raises:
  "keyMap (newCollection fst [(''a'', 1::int)]) ''b'' = None
 \<and> removeEvents (newCollection fst [(''a'', 1::int)]) ''b'' = Inl TypeError"
  by (simp add: removeEvents_def newCollection_def buildKeyMap_def)

section \<open>The index after a mutation\<close>

lemma list_all_upt: "list_all P [0 ..< n] \<longleftrightarrow> (\<forall>i < n. P i)"
  by (simp add: list_all_iff Ball_def)

lemma indexed_at_iff:
  "(case m of None \<Rightarrow> False | Some s \<Rightarrow> i \<in> set s) \<longleftrightarrow> (\<exists>s. m = Some s \<and> i \<in> set s)"
  by (cases m) simp_all

lemma indexed_under_iff:
  "(case m of None \<Rightarrow> True | Some s \<Rightarrow> list_all Q s) \<longleftrightarrow> (\<forall>s i. m = Some s \<longrightarrow> i \<in> set s \<longrightarrow> Q i)"
  by (cases m) (simp_all add: list_all_iff Ball_def)

lemma index_consistent_iff:
  "index_consistent ks c \<longleftrightarrow>
     (\<forall>i < length (events c). \<exists>s. keyMap c (ks (events c ! i)) = Some s \<and> i \<in> set s) \<and>
     (\<forall>k s i. keyMap c k = Some s \<longrightarrow> i \<in> set s \<longrightarrow>
        i < length (events c) \<and> ks (events c ! i) = k)"
  unfolding index_consistent_def list_all_upt indexed_at_iff indexed_under_iff
  by (rule refl)

lemma index_consistent_position:
  "index_consistent ks c \<Longrightarrow> i < length (events c) \<Longrightarrow>
     \<exists>s. keyMap c (ks (events c ! i)) = Some s \<and> i \<in> set s"
  by (simp add: index_consistent_iff)

lemma stale_after_remove:
  "\<not> index_consistent fst \<lparr>events = [(''b'', 2::int)], keyMap = [''b'' \<mapsto> [1]]\<rparr>"
proof
  assume "index_consistent fst \<lparr>events = [(''b'', 2::int)], keyMap = [''b'' \<mapsto> [1]]\<rparr>"
  from index_consistent_position [OF this, of 0] show False
    by simp
qed

lemma stale_after_dedup:
  "\<not> index_consistent fst
       \<lparr>events = [(''b'', 2::int), (''a'', 3)], keyMap = [''a'' \<mapsto> [1], ''b'' \<mapsto> [1]]\<rparr>"
proof
  assume "index_consistent fst
       \<lparr>events = [(''b'', 2::int), (''a'', 3)], keyMap = [''a'' \<mapsto> [1], ''b'' \<mapsto> [1]]\<rparr>"
  from index_consistent_position [OF this, of 0] show False
    by simp
qed

text \<open>
  \<open>buildKeyMap\<close> collects, for each key string, exactly the positions of the events with
  that key string. So a Collection built from a list is consistent, as is the empty one, and
  an insert without a dedup policy keeps a Collection consistent.
\<close>

lemma indexed_update:
  "indexed (km(k' \<mapsto> (case km k' of Some s \<Rightarrow> Set_add s i | None \<Rightarrow> [i]))) k
     = (if k = k' then insert i (indexed km k) else indexed km k)"
  by (auto simp add: indexed_def Set_add_def split: option.splits)

lemma indexed_buildKeyMap_from:
  "indexed (buildKeyMap_from ks i es km) k
     = indexed km k \<union> {i + j | j. j < length es \<and> ks (es ! j) = k}"
proof (induction es arbitrary: i km)
  case Nil
  then show ?case by simp
next
  case (Cons e es)
  have split: "{i + j | j. j < length (e # es) \<and> ks ((e # es) ! j) = k}
      = (if ks e = k then {i} else {}) \<union> {Suc i + j | j. j < length es \<and> ks (es ! j) = k}"
  proof (intro set_eqI iffI)
    fix x assume "x \<in> {i + j | j. j < length (e # es) \<and> ks ((e # es) ! j) = k}"
    then obtain j where j: "x = i + j" "j < length (e # es)" "ks ((e # es) ! j) = k" by blast
    show "x \<in> (if ks e = k then {i} else {}) \<union> {Suc i + j | j. j < length es \<and> ks (es ! j) = k}"
    proof (cases j)
      case 0
      with j show ?thesis by simp
    next
      case (Suc j')
      with j have "x = Suc i + j'" "j' < length es" "ks (es ! j') = k" by simp_all
      then show ?thesis by blast
    qed
  next
    fix x assume x: "x \<in> (if ks e = k then {i} else {}) \<union> {Suc i + j | j. j < length es \<and> ks (es ! j) = k}"
    show "x \<in> {i + j | j. j < length (e # es) \<and> ks ((e # es) ! j) = k}"
    proof (cases "x = i \<and> ks e = k")
      case True
      then have "x = i + 0 \<and> 0 < length (e # es) \<and> ks ((e # es) ! 0) = k" by simp
      then show ?thesis by blast
    next
      case False
      with x obtain j where "x = Suc i + j" "j < length es" "ks (es ! j) = k"
        by (auto split: if_splits)
      then have "x = i + Suc j \<and> Suc j < length (e # es) \<and> ks ((e # es) ! Suc j) = k" by simp
      then show ?thesis by blast
    qed
  qed
  have "indexed (buildKeyMap_from ks i (e # es) km) k
      = indexed (km(ks e \<mapsto> (case km (ks e) of Some s \<Rightarrow> Set_add s i | None \<Rightarrow> [i]))) k
        \<union> {Suc i + j | j. j < length es \<and> ks (es ! j) = k}"
    by (simp only: buildKeyMap_from.simps Let_def Cons.IH)
  also have "\<dots> = indexed km k \<union> {i + j | j. j < length (e # es) \<and> ks ((e # es) ! j) = k}"
    unfolding split indexed_update by auto
  finally show ?case .
qed

lemma index_consistent_indexed:
  "index_consistent ks c \<longleftrightarrow>
     (\<forall>k. indexed (keyMap c) k = {i. i < length (events c) \<and> ks (events c ! i) = k})"
proof
  assume ic: "index_consistent ks c"
  show "\<forall>k. indexed (keyMap c) k = {i. i < length (events c) \<and> ks (events c ! i) = k}"
  proof (intro allI set_eqI iffI)
    fix k i assume "i \<in> indexed (keyMap c) k"
    then obtain s where "keyMap c k = Some s" "i \<in> set s"
      by (auto simp add: indexed_def split: option.splits)
    with ic show "i \<in> {i. i < length (events c) \<and> ks (events c ! i) = k}"
      unfolding index_consistent_iff by blast
  next
    fix k i assume "i \<in> {i. i < length (events c) \<and> ks (events c ! i) = k}"
    then have i: "i < length (events c)" "ks (events c ! i) = k" by simp_all
    with ic obtain s where "keyMap c k = Some s" "i \<in> set s"
      unfolding index_consistent_iff by blast
    then show "i \<in> indexed (keyMap c) k"
      by (simp add: indexed_def)
  qed
next
  assume h: "\<forall>k. indexed (keyMap c) k = {i. i < length (events c) \<and> ks (events c ! i) = k}"
  have pos: "\<exists>s. keyMap c (ks (events c ! i)) = Some s \<and> i \<in> set s" if "i < length (events c)" for i
  proof -
    from that have "i \<in> indexed (keyMap c) (ks (events c ! i))" using h by simp
    then show ?thesis
      by (auto simp add: indexed_def split: option.splits)
  qed
  have mem: "i < length (events c) \<and> ks (events c ! i) = k" if "keyMap c k = Some s" "i \<in> set s" for k s i
  proof -
    from that have "i \<in> indexed (keyMap c) k" by (simp add: indexed_def)
    with h show ?thesis by simp
  qed
  show "index_consistent ks c"
    unfolding index_consistent_iff using pos mem by blast
qed

lemma indexed_empty: "indexed Map.empty k = {}"
  by (simp add: indexed_def)

lemma newCollection_consistent: "index_consistent ks (newCollection ks evs)"
  by (simp add: index_consistent_indexed newCollection_def buildKeyMap_def
      indexed_buildKeyMap_from indexed_empty)

lemma emptyCollection_consistent: "index_consistent ks emptyCollection"
  by (simp add: index_consistent_indexed emptyCollection_def indexed_empty)

lemma addEvent_plain_consistent:
  assumes "index_consistent ks c" and "addEvent ks c e NoDedup = Inr c'"
  shows "index_consistent ks c'"
proof -
  let ?k = "ks e"
  have c': "c' = clone (events c @ [e])
              ((keyMap c)(?k \<mapsto> (case keyMap c ?k of Some s \<Rightarrow> Set_add s (length (events c)) | None \<Rightarrow> [length (events c)])))"
    using assms(2)
    by (auto simp add: addEvent_def Let_def onEventAdded_def Set_add_def split: option.splits)
  have old: "\<forall>k. indexed (keyMap c) k = {i. i < length (events c) \<and> ks (events c ! i) = k}"
    using assms(1) by (simp add: index_consistent_indexed)
  show ?thesis
    unfolding index_consistent_indexed c'
    by (auto simp add: clone_def indexed_update old nth_append less_Suc_eq)
qed

text \<open>
  Claim C1 says that the key index stays consistent with the sequence under \<open>addEvent\<close>
  and \<open>removeEvents\<close>. On the (consistent) Collection built from an event with key \<open>a\<close> followed by
  one with key \<open>b\<close>, removing key \<open>a\<close> leaves the event of \<open>b\<close> at position 0 and the
  set of \<open>b\<close> holding position 1; adding an event with key \<open>a\<close> under replace-mode dedup
  does the same, and position 1 is then in the sets of both keys.
\<close>

theorem index_broken_by_mutation:
  "removeEvents (newCollection fst [(''a'', 1::int), (''b'', 2)]) ''a''
     = Inr \<lparr>events = [(''b'', 2)], keyMap = [''b'' \<mapsto> [1]]\<rparr>
 \<and> \<not> index_consistent fst \<lparr>events = [(''b'', 2::int)], keyMap = [''b'' \<mapsto> [1]]\<rparr>
 \<and> addEvent fst (newCollection fst [(''a'', 1::int), (''b'', 2)]) (''a'', 3) Replace
     = Inr \<lparr>events = [(''b'', 2), (''a'', 3)], keyMap = [''a'' \<mapsto> [1], ''b'' \<mapsto> [1]]\<rparr>
 \<and> \<not> index_consistent fst
       \<lparr>events = [(''b'', 2::int), (''a'', 3)], keyMap = [''a'' \<mapsto> [1], ''b'' \<mapsto> [1]]\<rparr>"
proof (intro conjI)
  show "removeEvents (newCollection fst [(''a'', 1::int), (''b'', 2)]) ''a''
     = Inr \<lparr>events = [(''b'', 2)], keyMap = [''b'' \<mapsto> [1]]\<rparr>"
    by (simp add: removeEvents_def newCollection_def buildKeyMap_def Set_has_def clone_def
        Set_add_def fun_eq_iff)
  show "addEvent fst (newCollection fst [(''a'', 1::int), (''b'', 2)]) (''a'', 3) Replace
     = Inr \<lparr>events = [(''b'', 2), (''a'', 3)], keyMap = [''a'' \<mapsto> [1], ''b'' \<mapsto> [1]]\<rparr>"
    by (simp add: addEvent_def atKey_def Set_map_def List_get_def onEventAdded_def
        newCollection_def buildKeyMap_def clone_def Set_add_def fun_eq_iff)
qed (rule stale_after_remove stale_after_dedup)+

section \<open>Insertion with a dedup policy\<close>











text \<open>
  An insert under a dedup policy reads \<open>atKey\<close> first, so it raises when the key of the
  event is not indexed yet.
\<close>

lemma addEvent_dedup_new_key_raises:
  "keyMap c (ks e) = None \<Longrightarrow> dedup_given dd \<Longrightarrow> addEvent ks c e dd = Inl TypeError"
  by (simp add: addEvent_def atKey_def)




section \<open>Chronological order of a sequence that starts at the epoch\<close>

text \<open>
  Once \<^verbatim>\<open>t\<close> holds a value that is not falsy, every later event is compared with the one
  before it. So the method decides the documented property on every sequence whose first
  event is not at time 0, and on the empty sequence.
\<close>

lemma chron_fold_compared:
  "\<not> falsy t \<Longrightarrow>
     fst (foldl (chron_step tm) (result, t) es)
       = (result \<and> chronological (valueOf t # map tm es))"
proof (induction es arbitrary: result t)
  case Nil
  then show ?case by simp
next
  case (Cons e es)
  have step: "chron_step tm (result, t) e
      = ((if tm e < valueOf t then False else result), DateObj (tm e))"
    using Cons.prems by (simp add: chron_step_def)
  have "\<not> falsy (DateObj (tm e))" by simp
  from Cons.IH [OF this] step show ?case by auto
qed

lemma isChronological_away_from_epoch:
  assumes "events c = e # es" and "tm e \<noteq> 0"
  shows "isChronological tm c = chronological (map tm (events c))"
proof -
  have "\<not> falsy (Number (tm e))" using assms(2) by simp
  from chron_fold_compared [OF this, of tm True es] assms(1) show ?thesis
    by (simp add: isChronological_def chron_step_def)
qed

lemma isChronological_empty:
  "events c = [] \<Longrightarrow> isChronological tm c"
  by (simp add: isChronological_def)

text \<open>
  Claim C6 says that \<open>isChronological\<close> is true exactly when no event's time is strictly
  less than the one before. For an event at time 0 followed by an event one millisecond
  earlier the code answers true: the number 0 kept from the first event reads as "no
  previous time", and the second event is not compared.
\<close>

theorem isChronological_epoch_start:
  "isChronological snd (newCollection fst [(''1970-01-01T00:00:00.000Z'', 0), (''1969-12-31T23:59:59.999Z'', - 1)])
 \<and> \<not> chronological (map snd [(''1970-01-01T00:00:00.000Z'', 0), (''1969-12-31T23:59:59.999Z'', - 1)])"
  by (simp add: isChronological_def newCollection_def chron_step_def)

section \<open>Collapse and what the processor returns\<close>

lemma length_List_map: "length (List_map mapper st xs) = length xs"
  by (induction xs arbitrary: st) (auto split: prod.splits)

text \<open>On values that are all Events the constructor does what it does on a list of Events.\<close>

lemma buildKeyMap_mapped_events:
  "buildKeyMap_mapped ks i (map Event es) km = Inr (buildKeyMap_from ks i es km)"
  by (induction es arbitrary: i km) (simp_all add: Let_def)

lemma events_of_events: "events_of (map Event es) = es"
  by (induction es) simp_all

lemma newCollection_mapped_events:
  "newCollection_mapped ks (map Event es) = Inr (newCollection ks es)"
  by (simp add: newCollection_mapped_def newCollection_def buildKeyMap_def
      buildKeyMap_mapped_events events_of_events)

text \<open>One value that is not an Event makes the constructor raise.\<close>

lemma buildKeyMap_mapped_not_event:
  "NotEvent x \<in> set vs \<Longrightarrow> buildKeyMap_mapped ks i vs km = Inl TypeError"
proof (induction vs arbitrary: i km)
  case Nil
  then show ?case by simp
next
  case (Cons v vs)
  then show ?case by (cases v) (auto simp add: Let_def)
qed

lemma buildKeyMap_mapped_returns:
  "buildKeyMap_mapped ks i vs km = Inr km' \<Longrightarrow> length (events_of vs) = length vs"
proof (induction vs arbitrary: i km)
  case Nil
  then show ?case by simp
next
  case (Cons v vs)
  then show ?case by (cases v) (auto simp add: Let_def)
qed

text \<open>
  Whenever \<open>collapse\<close> returns, the Collection it returns has the size of its input; and it
  returns when the processor gives an Event for every event.
\<close>

lemma collapse_size_when_returned:
  "collapse ks newCollapse p_addEvent options c = Inr c' \<Longrightarrow> sizeC c' = sizeC c"
  by (auto simp add: collapse_def mapC_def newCollection_mapped_def sizeC_def Let_def
      length_List_map split: sum.splits dest: buildKeyMap_mapped_returns)

lemma List_map_events:
  fixes f :: "'s \<Rightarrow> 'a \<Rightarrow> 'e" and g :: "'s \<Rightarrow> 'a \<Rightarrow> 's"
  shows "\<exists>es. List_map (\<lambda>st e. (Event (f st e) :: ('e, 'x) mapped, g st e)) st xs = map Event es"
proof (induction xs arbitrary: st)
  case Nil
  show ?case by simp
next
  case (Cons x xs)
  from Cons [of "g st x"] obtain es
    where "List_map (\<lambda>st e. (Event (f st e) :: ('e, 'x) mapped, g st e)) (g st x) xs = map Event es"
    by blast
  then have "List_map (\<lambda>st e. (Event (f st e) :: ('e, 'x) mapped, g st e)) st (x # xs)
      = map Event (f st x # es)"
    by simp
  then show ?case by blast
qed

lemma collapse_events_returns:
  fixes f :: "'s \<Rightarrow> 'a \<Rightarrow> 'e" and g :: "'s \<Rightarrow> 'a \<Rightarrow> 's"
  shows "\<exists>c'. collapse ks newCollapse (\<lambda>st e. (Event (f st e) :: ('e, 'x) mapped, g st e)) options c
                = Inr c'
        \<and> sizeC c' = sizeC c"
proof -
  obtain es
    where es: "List_map (\<lambda>st e. (Event (f st e) :: ('e, 'x) mapped, g st e)) (newCollapse options)
                 (events c) = map Event es"
    using List_map_events [of f g "newCollapse options" "events c"] by blast
  then have r: "collapse ks newCollapse (\<lambda>st e. (Event (f st e) :: ('e, 'x) mapped, g st e)) options c
      = Inr (newCollection ks es)"
    by (simp add: collapse_def mapC_def newCollection_mapped_events)
  from collapse_size_when_returned [OF r] r show ?thesis by simp
qed

text \<open>
  Claim C9 says that \<open>collapse\<close> returns a Collection of the size of its input, whatever the
  processor returns for each event. A stream processor returns a sequence of events for
  each event; with a processor that returns the sequence of the one event it is given, on
  the Collection of one event, \<open>collapse\<close> raises a TypeError: \<^verbatim>\<open>map\<close> puts the sequence
  itself into the new list and the constructor asks it for its key. The same call under
  \<open>flatMap\<close>, as \<^verbatim>\<open>align\<close> and \<^verbatim>\<open>rate\<close> make it, returns the Collection of that event.
\<close>

theorem collapse_raises_on_sequences:
  "collapse fst (\<lambda>options. ()) (\<lambda>p e. (NotEvent [e], p)) () (newCollection fst [(''a'', 1::int)])
     = (Inl TypeError :: error + (string \<times> int) Collection)
 \<and> flatMap fst (\<lambda>p e. ([Event e], p)) () (newCollection fst [(''a'', 1::int)])
     = (Inr (newCollection fst [(''a'', 1)]) :: error + (string \<times> int) Collection)"
  by (simp add: collapse_def mapC_def flatMap_def List_flatMap_def newCollection_mapped_def
      newCollection_def buildKeyMap_def)

section \<open>Quantiles\<close>

lemma quantile_ignores_interp:
  "quantile tv ks n fld interp c = quantile tv ks n fld interp' c"
  by (simp add: quantile_def)

text \<open>
  Claim C2 says that the quantile values follow the interpolation mode the caller gives. On
  the values 1 and 2 with \<open>n = 2\<close> (index 0, fraction one half) the claim asks for 1 under
  the mode lower and 2 under the mode higher. The code gives the same list under both,
  whatever the truth values of the enumeration constants; when every constant is truthy,
  it gives the lower value 1 under the modes higher, linear and midpoint.
\<close>

theorem quantile_mode_not_dispatched:
  "quantile tv fst 2 snd Higher (newCollection fst [(''a'', 1), (''b'', 2)])
     = quantile tv fst 2 snd Lower (newCollection fst [(''a'', 1), (''b'', 2)])
 \<and> quantile (\<lambda>m. True) fst 2 snd Higher (newCollection fst [(''a'', 1), (''b'', 2)]) = Inr [Some 1]
 \<and> quantile (\<lambda>m. True) fst 2 snd Linear (newCollection fst [(''a'', 1), (''b'', 2)]) = Inr [Some 1]
 \<and> quantile (\<lambda>m. True) fst 2 snd Midpoint (newCollection fst [(''a'', 1), (''b'', 2)]) = Inr [Some 1]"
  by (simp add: quantile_def sortC_def newCollection_def sizeC_def atC_def eventList_def List_get_def Let_def
      quantile_loop.simps [of _ _ _ _ "1 / 2"] quantile_loop.simps [of _ _ _ _ "1"])

section \<open>The precondition of quantile\<close>

text \<open>
  The loop of \<open>quantile\<close> always returns: the index it computes for \<open>0 < i < 1\<close> is a
  position of the sorted Collection whenever the guard lets it through, so neither read of
  \<open>at\<close> is absent, and \<open>i\<close> grows by \<open>1 / n\<close> until it reaches 1.
\<close>

lemma atC_in_range: "0 \<le> p \<Longrightarrow> p < int (sizeC c) \<Longrightarrow> \<exists>e. atC c p = Some e"
  by (simp add: atC_def eventList_def sizeC_def List_get_in_range)

lemma quantile_index_bounds:
  fixes i :: rat
  assumes "0 < i" and "i < 1" and "\<lfloor>(of_nat sz - 1) * i\<rfloor> < int sz - 1"
  shows "0 \<le> \<lfloor>(of_nat sz - 1) * i\<rfloor>"
proof (cases sz)
  case 0
  then have "\<lfloor>(of_nat sz - 1) * i\<rfloor> = \<lfloor>- i\<rfloor>" by simp
  moreover have "- 1 \<le> \<lfloor>- i\<rfloor>" using assms(2) by (simp add: le_floor_iff)
  ultimately show ?thesis using assms(3) 0 by simp
next
  case (Suc m)
  then have "0 \<le> (of_nat sz - 1) * i" using assms(1) by simp
  then show ?thesis by simp
qed

lemma quantile_loop_returns:
  "0 < i \<Longrightarrow> \<exists>r. quantile_loop tv n fld sorted_c i = Inr r"
proof (induction tv n fld sorted_c i rule: quantile_loop.induct)
  case (1 tv n fld sorted_c i)
  show ?case
  proof (cases "n \<noteq> 0 \<and> i < 1")
    case False
    then show ?thesis by (subst quantile_loop.simps) auto
  next
    case True
    define index where "index = \<lfloor>(of_nat (sizeC sorted_c) - 1) * i\<rfloor>"
    have next_pos: "0 < i + 1 / of_nat n" using "1.prems" True by (simp add: add_pos_pos)
    show ?thesis
    proof (cases "index < int (sizeC sorted_c) - 1")
      case False
      with True "1.IH"(2) [OF True index_def False next_pos] show ?thesis
        by (subst quantile_loop.simps) (simp add: index_def)
    next
      case lt: True
      have ge: "0 \<le> index"
        unfolding index_def using quantile_index_bounds [OF "1.prems"] True lt index_def by simp
      obtain e0 where e0: "atC sorted_c index = Some e0"
        using atC_in_range [of index sorted_c] ge lt by auto
      obtain e1 where e1: "atC sorted_c (index + 1) = Some e1"
        using atC_in_range [of "index + 1" sorted_c] ge lt by auto
      obtain r where r: "quantile_loop tv n fld sorted_c (i + 1 / of_nat n) = Inr r"
        using "1.IH"(1) [OF True index_def lt refl e0 e1 refl refl refl next_pos] by blast
      show ?thesis
        using True lt e0 e1 r
        by (subst quantile_loop.simps) (simp add: index_def [symmetric] Let_def)
    qed
  qed
qed

lemma sizeC_sortC: "sizeC (sortC ks fld c) = sizeC c"
  by (simp add: sizeC_def sortC_def newCollection_def Let_def)

lemma quantile_within_size:
  "n \<le> sizeC c \<Longrightarrow> \<exists>r. quantile tv ks n fld interp c = Inr r"
proof (cases "n = 0")
  case True
  then show ?thesis by (simp add: quantile_def quantile_loop.simps [of _ 0])
next
  case False
  assume "n \<le> sizeC c"
  moreover have "(0::rat) < 1 / of_nat n" using False by simp
  ultimately show ?thesis
    using quantile_loop_returns [of "1 / of_nat n" tv n fld "sortC ks fld c"]
    by (simp add: quantile_def Let_def)
qed

text \<open>
  Claim C4: \<open>quantile\<close> raises its error, the one with the message of the source, exactly
  when \<open>n\<close> is greater than the size of the Collection; and it returns a list of values
  exactly when \<open>n\<close> does not exceed the size.
\<close>

theorem quantile_precondition:
  "(quantile tv ks n fld interp c = Inl (Error ''Subset n is greater than the Collection length''))
     = (sizeC c < n)
 \<and> (\<exists>r. quantile tv ks n fld interp c = Inr r) = (n \<le> sizeC c)"
proof (cases "n \<le> sizeC c")
  case True
  with quantile_within_size [OF True, of tv ks fld interp] show ?thesis by auto
next
  case False
  then show ?thesis by (simp add: quantile_def)
qed

theorem quantile_precondition_witness:
  "quantile (\<lambda>m. True) fst 3 snd Linear (newCollection fst [(''a'', 1), (''b'', 2)])
     = Inl (Error ''Subset n is greater than the Collection length'')
 \<and> (\<exists>r. quantile (\<lambda>m. True) fst 2 snd Linear (newCollection fst [(''a'', 1), (''b'', 2)]) = Inr r)"
  using quantile_precondition [of "\<lambda>m. True" fst 3 snd Linear "newCollection fst [(''a'', 1), (''b'', 2)]"]
    quantile_precondition [of "\<lambda>m. True" fst 2 snd Linear "newCollection fst [(''a'', 1), (''b'', 2)]"]
  by (simp add: sizeC_def newCollection_def)

section \<open>A method leaves the Collection it is called on unchanged\<close>

text \<open>What \<^verbatim>\<open>clone\<close> and the constructor do to the store.\<close>

lemma allocate_appends: "allocate s = (s @ [\<lparr>events = [], keyMap = Map.empty\<rparr>], length s)"
  by (simp add: allocate_def)

lemma new_object_appends: "new_object s = (s @ [\<lparr>events = [], keyMap = Map.empty\<rparr>], length s)"
  by (simp add: new_object_def allocate_def set_events_def set_keyMap_def)

lemma clone_object_appends:
  "clone_object s evs km = (s @ [\<lparr>events = evs, keyMap = km\<rparr>], length s)"
  by (simp add: clone_object_def new_object_appends set_events_def set_keyMap_def)

lemma construct_object_appends:
  "construct_object ks s arg1 = (s @ [newCollection ks arg1], length s)"
  by (simp add: construct_object_def allocate_def set_events_def set_keyMap_def newCollection_def)

















text \<open>A method whose body assigns to a field of the receiver does not pass.\<close>

lemma assignment_to_receiver_is_seen:
  "\<not> only_allocates [emptyCollection] (set_events [emptyCollection] 0 [e], Inr 0)"
  by (simp add: only_allocates_def set_events_def emptyCollection_def)

text \<open>The methods on objects compute what the methods on values compute.\<close>

lemma atKey_obj_value: "atKey_obj s this k = atKey (s ! this) k"
  by (simp add: atKey_obj_def atKey_def)

lemma addEvent_obj_value:
  "addEvent_obj ks s this event dd =
     (case addEvent ks (s ! this) event dd of
        Inl err \<Rightarrow> (s, Inl err)
      | Inr c \<Rightarrow> (s @ [c], Inr (length s)))"
  by (simp add: addEvent_obj_def addEvent_def atKey_obj_value Let_def returned_def
      clone_object_appends clone_def onEventAdded_def split: sum.splits prod.splits)

lemma removeEvents_obj_value:
  "removeEvents_obj s this k =
     (case removeEvents (s ! this) k of
        Inl err \<Rightarrow> (s, Inl err)
      | Inr c \<Rightarrow> (s @ [c], Inr (length s)))"
  by (simp add: removeEvents_obj_def removeEvents_def Let_def returned_def
      clone_object_appends clone_def split: sum.splits)

lemma setEvents_obj_value:
  "setEvents_obj ks s this evs = (s @ [setEvents ks (s ! this) evs], Inr (length s))"
  by (simp add: setEvents_obj_def setEvents_def returned_def clone_object_appends clone_def)

lemma takeLast_obj_value:
  "takeLast_obj ks s this amount = (s @ [takeLast ks (s ! this) amount], Inr (length s))"
  by (simp add: takeLast_obj_def takeLast_def Let_def returned_def clone_object_appends clone_def)

lemma slice_obj_value:
  "slice_obj ks s this b e = (s @ [slice ks (s ! this) b e], Inr (length s))"
  by (simp add: slice_obj_def slice_def setEvents_obj_value setEvents_def)

lemma rest_obj_value:
  "rest_obj ks s this = (s @ [rest ks (s ! this)], Inr (length s))"
  by (simp add: rest_obj_def rest_def setEvents_obj_value setEvents_def)

lemma sort_obj_value:
  "sort_obj ks s this fld = (s @ [sortC ks fld (s ! this)], Inr (length s))"
  by (simp add: sort_obj_def sortC_def Let_def returned_def construct_object_appends)

lemma sortByKey_obj_value:
  "sortByKey_obj ks tm s this = (s @ [sortByKey ks tm (s ! this)], Inr (length s))"
  by (simp add: sortByKey_obj_def sortByKey_def Let_def returned_def construct_object_appends)

lemma mapKeys_obj_value:
  "mapKeys_obj ks s this rekey = (s @ [mapKeys ks rekey (s ! this)], Inr (length s))"
  by (simp add: mapKeys_obj_def mapKeys_def Let_def returned_def construct_object_appends)

lemma construct_object_mapped_value:
  "construct_object_mapped ks s arg1 =
     (case newCollection_mapped ks arg1 of
        Inl err \<Rightarrow> (s @ [\<lparr>events = events_of arg1, keyMap = Map.empty\<rparr>], Inl err)
      | Inr c \<Rightarrow> (s @ [c], Inr (length s)))"
  by (cases "buildKeyMap_mapped ks 0 arg1 Map.empty")
     (simp_all add: construct_object_mapped_def newCollection_mapped_def allocate_def
        set_events_def set_keyMap_def Let_def)

lemma map_obj_value:
  "map_obj ks s this mapper st =
     (case mapC ks mapper st (s ! this) of
        Inl err \<Rightarrow> (s @ [\<lparr>events = events_of (List_map mapper st (events (s ! this))),
                          keyMap = Map.empty\<rparr>], Inl err)
      | Inr c \<Rightarrow> (s @ [c], Inr (length s)))"
  by (simp add: map_obj_def mapC_def Let_def construct_object_mapped_value)

lemma flatMap_obj_value:
  "flatMap_obj ks s this mapper st =
     (case flatMap ks mapper st (s ! this) of
        Inl err \<Rightarrow> (s @ [\<lparr>events = events_of (List_flatMap mapper st (events (s ! this))),
                          keyMap = Map.empty\<rparr>], Inl err)
      | Inr c \<Rightarrow> (s @ [c], Inr (length s)))"
  by (simp add: flatMap_obj_def flatMap_def Let_def construct_object_mapped_value)



end
